theory Spec2Isabelle
  imports Complex_Main
begin

section \<open>JavaScript values used by the lineup client\<close>

text \<open>
  The client is the React component \<open>App\<close> of \<open>player_pred_frontend/src/App.tsx\<close>.
  A JavaScript string is modelled as a list of code units; the model covers the code units
  below 256 (ASCII and Latin-1, which is enough for every literal of the source, such as
  the default player names), where \<open>toLowerCase\<close> works unit by unit.
\<close>

datatype jsval =
    JUndefined
  | JNull
  | JBool bool
  | JNum real
  | JStr string
  | JArr "jsval list"
  | JObj "(string \<times> jsval) list"

text \<open>JavaScript truthiness, as used by \<open>prediction && (...)\<close>.\<close>

fun truthy :: "jsval \<Rightarrow> bool" where
  "truthy JUndefined = False"
| "truthy JNull = False"
| "truthy (JBool b) = b"
| "truthy (JNum x) = (x \<noteq> 0)"
| "truthy (JStr s) = (s \<noteq> [])"
| "truthy (JArr xs) = True"
| "truthy (JObj kvs) = True"

subsection \<open>String methods\<close>

text \<open>
  \<open>String.prototype.toLowerCase\<close> on code units below 256: the letters A to Z
  (65 to 90) and the Latin-1 capitals (192 to 222, without the multiplication sign 215)
  move up by 32; every other unit is unchanged.
\<close>

definition lower_char :: "char \<Rightarrow> char" where
  "lower_char c =
     (let n = (of_char c :: nat)
      in if (65 \<le> n \<and> n \<le> 90) \<or> (192 \<le> n \<and> n \<le> 222 \<and> n \<noteq> 215)
         then char_of (n + 32) else c)"

definition toLowerCase :: "string \<Rightarrow> string" where
  "toLowerCase s = map lower_char s"

text \<open>\<open>s.startsWith(t)\<close> and \<open>s.includes(t)\<close>: \<open>t\<close> occurs in \<open>s\<close> at some index.\<close>

fun startsWith :: "string \<Rightarrow> string \<Rightarrow> bool" where
  "startsWith s [] = True"
| "startsWith [] (d # t) = False"
| "startsWith (c # s) (d # t) = (c = d \<and> startsWith s t)"

fun includes_str :: "string \<Rightarrow> string \<Rightarrow> bool" where
  "includes_str [] t = (t = [])"
| "includes_str (c # s) t = (startsWith (c # s) t \<or> includes_str s t)"

text \<open>
  The white space class \<open>\s\<close> of a JavaScript regular expression, on code units below 256:
  tab, line feed, vertical tab, form feed, carriage return, space and no-break space.
\<close>

definition is_space :: "char \<Rightarrow> bool" where
  "is_space c = ((of_char c :: nat) \<in> {9, 10, 11, 12, 13, 32, 160})"

section \<open>Players and the component state\<close>

text \<open>
  A player record as delivered by \<open>GET /players\<close>. The component calls string methods on
  \<open>name\<close> and \<open>team\<close>, so these two are strings; every other property of the record
  (\<open>pos\<close>, \<open>age\<close>, ...) is only read and rendered, and is kept in the property list
  \<open>props\<close>, in the record's own order.
\<close>

record player =
  name :: string
  team :: string
  props :: "(string \<times> jsval) list"

text \<open>Property access \<open>player.k\<close>: a missing property reads as \<open>undefined\<close>.\<close>

definition get_prop :: "player \<Rightarrow> string \<Rightarrow> jsval" where
  "get_prop p k =
     (if k = ''name'' then JStr (name p)
      else if k = ''team'' then JStr (team p)
      else (case map_of (props p) k of None \<Rightarrow> JUndefined | Some v \<Rightarrow> v))"

text \<open>
  A lineup is a JavaScript object from slot keys to players. Its properties are kept in
  insertion order, which is the order of \<open>Object.values\<close>. Assigning a property replaces
  the value of an existing key in place and appends a new key at the end.
\<close>

type_synonym lineup = "(string \<times> player) list"

primrec obj_set :: "string \<Rightarrow> 'v \<Rightarrow> (string \<times> 'v) list \<Rightarrow> (string \<times> 'v) list" where
  "obj_set k v [] = [(k, v)]"
| "obj_set k v (e # es) = (if fst e = k then (k, v) # es else e # obj_set k v es)"

definition obj_get :: "(string \<times> 'v) list \<Rightarrow> string \<Rightarrow> 'v option" where
  "obj_get ob k = map_of ob k"

definition Object_keys :: "(string \<times> 'v) list \<Rightarrow> string list" where
  "Object_keys ob = map fst ob"

definition Object_values :: "(string \<times> 'v) list \<Rightarrow> 'v list" where
  "Object_values ob = map snd ob"

datatype team_key = TeamA | TeamB

record lineups_obj =
  teamA :: lineup
  teamB :: lineup

text \<open>\<open>prev[teamKey]\<close> and \<open>{...prev, [teamKey]: v}\<close>.\<close>

fun lineup_of :: "team_key \<Rightarrow> lineups_obj \<Rightarrow> lineup" where
  "lineup_of TeamA ls = teamA ls"
| "lineup_of TeamB ls = teamB ls"

fun with_lineup :: "team_key \<Rightarrow> lineup \<Rightarrow> lineups_obj \<Rightarrow> lineups_obj" where
  "with_lineup TeamA l ls = ls\<lparr>teamA := l\<rparr>"
| "with_lineup TeamB l ls = ls\<lparr>teamB := l\<rparr>"

fun other_team :: "team_key \<Rightarrow> team_key" where
  "other_team TeamA = TeamB"
| "other_team TeamB = TeamA"

text \<open>
  The state hooks of \<open>App\<close>. The active slot \<open>{team, pos}\<close> is a pair; \<open>None\<close> is
  \<open>null\<close>. The stored prediction is a JavaScript value, \<open>null\<close> at the start.
\<close>

record app_state =
  playersDb :: "player list"
  lineups :: lineups_obj
  activeSlot :: "(team_key \<times> string) option"
  searchTerm :: string
  prediction :: jsval
  loading :: bool

definition init_state :: app_state where
  "init_state =
     \<lparr>playersDb = [], lineups = \<lparr>teamA = [], teamB = []\<rparr>, activeSlot = None,
      searchTerm = [], prediction = JNull, loading = False\<rparr>"

section \<open>Constants of the component\<close>

definition API_BASE_URL :: string where
  "API_BASE_URL = ''http://localhost:8000''"

text \<open>\<open>FORMATION_433\<close>: slot key to the \<open>top\<close> and \<open>left\<close> offsets on the pitch.\<close>

definition FORMATION_433 :: "(string \<times> string \<times> string) list" where
  "FORMATION_433 =
     [(''GK'', ''88%'', ''50%''), (''RB'', ''70%'', ''85%''), (''RCB'', ''75%'', ''62%''),
      (''LCB'', ''75%'', ''38%''), (''LB'', ''70%'', ''15%''), (''RCM'', ''50%'', ''72%''),
      (''CDM'', ''55%'', ''50%''), (''LCM'', ''50%'', ''28%''), (''RW'', ''25%'', ''80%''),
      (''ST'', ''18%'', ''50%''), (''LW'', ''25%'', ''20%'')]"

definition TEAM_A_DEFAULT :: "string list" where
  "TEAM_A_DEFAULT =
     [''Alisson'', ''Virgil van Dijk'', ''Michael Carrick'',
      ''Damien Delaney'', ''Andrew Robertson'', ''Alexis Mac Allister'',
      ''Dominik Szoboszlai'', ''Ryan Gravenberch'', ''Mohamed Salah'',
      ''Luis D'' @ [CHR 0xED] @ ''az'', ''Darwin N'' @ [CHR 0xFA, CHR 0xF1] @ ''ez'']"

definition TEAM_B_DEFAULT :: "string list" where
  "TEAM_B_DEFAULT =
     [''Ederson'', ''Malo Gusto'', ''Manuel Akanji'',
      ''Kyle Walker'', ''Josko Gvardiol'', ''Rodri'',
      ''Kevin De Bruyne'', ''Bernardo Silva'', ''Phil Foden'',
      ''Jeremy Doku'', ''Erling Haaland'']"

definition FORMATION_ORDER :: "string list" where
  "FORMATION_ORDER =
     [''GK'', ''RB'', ''RCB'', ''LCB'', ''LB'',
      ''RCM'', ''CDM'', ''LCM'',
      ''RW'', ''ST'', ''LW'']"

section \<open>Operations on the lineups\<close>

text \<open>
  \<open>selectPlayer\<close>: without an active slot nothing happens; otherwise the player is
  assigned to \<open>lineups[activeSlot.team][activeSlot.pos]\<close>, the modal closes and the
  search term is cleared.
\<close>

definition selectPlayer :: "player \<Rightarrow> app_state \<Rightarrow> app_state" where
  "selectPlayer pl s =
     (case activeSlot s of
        None \<Rightarrow> s
      | Some (t, ps) \<Rightarrow>
          s\<lparr>lineups := with_lineup t (obj_set ps pl (lineup_of t (lineups s))) (lineups s),
            activeSlot := None,
            searchTerm := []\<rparr>)"

text \<open>
  \<open>defaultNames[index]\<close>: an index outside the array reads \<open>undefined\<close> (\<open>None\<close>).
  \<open>playersDb.find(p => p.name === playerName)\<close>: the first entry with that name; the
  name of an entry is a string, so \<open>undefined\<close> equals none of them.
\<close>

definition array_get :: "'a list \<Rightarrow> nat \<Rightarrow> 'a option" where
  "array_get xs i = (if i < length xs then Some (xs ! i) else None)"

definition find_by_name :: "player list \<Rightarrow> string option \<Rightarrow> player option" where
  "find_by_name db playerName = List.find (\<lambda>p. Some (name p) = playerName) db"

text \<open>One round of the \<open>forEach\<close> over \<open>FORMATION_ORDER\<close>, at \<open>(pos, index)\<close>.\<close>

definition fill_slot :: "player list \<Rightarrow> string list \<Rightarrow> string \<times> nat \<Rightarrow> lineup \<Rightarrow> lineup" where
  "fill_slot db defaultNames slot filledTeam =
     (case find_by_name db (array_get defaultNames (snd slot)) of
        Some playerObj \<Rightarrow> obj_set (fst slot) playerObj filledTeam
      | None \<Rightarrow> filledTeam)"

definition fillTeamWithDefaults :: "team_key \<Rightarrow> string list \<Rightarrow> app_state \<Rightarrow> app_state" where
  "fillTeamWithDefaults teamKey defaultNames s =
     (let filledTeam =
            fold (fill_slot (playersDb s) defaultNames)
              (zip FORMATION_ORDER [0 ..< length FORMATION_ORDER]) []
      in s\<lparr>lineups := with_lineup teamKey filledTeam (lineups s)\<rparr>)"

section \<open>The prediction request\<close>

text \<open>
  The body of a request is kept as the JavaScript value handed to \<open>JSON.stringify\<close>.
  The network's answer to the request is an input of the model: the request fails, or a
  response arrives with a status and a body that parses as JSON (\<open>Some\<close>) or does not.
\<close>

record request =
  url :: string
  method_http :: string
  headers :: "(string \<times> string) list"
  body :: jsval

datatype effect = Alert string | Fetch request

datatype fetch_outcome = NetworkError | Response nat "jsval option"

fun requests_of :: "effect list \<Rightarrow> request list" where
  "requests_of [] = []"
| "requests_of (Alert m # es) = requests_of es"
| "requests_of (Fetch r # es) = r # requests_of es"

fun alerts_of :: "effect list \<Rightarrow> string list" where
  "alerts_of [] = []"
| "alerts_of (Alert m # es) = m # alerts_of es"
| "alerts_of (Fetch r # es) = alerts_of es"

definition predict_request :: "string list \<Rightarrow> string list \<Rightarrow> request" where
  "predict_request a b =
     \<lparr>url = API_BASE_URL @ ''/predict'',
      method_http = ''POST'',
      headers = [(''Content-Type'', ''application/json'')],
      body = JObj [(''team_a_players'', JArr (map JStr a)),
                   (''team_b_players'', JArr (map JStr b))]\<rparr>"

text \<open>
  \<open>handlePredict\<close>, run to its end with the network's answer \<open>net\<close>: the new state and
  the effects in the order they happen.
\<close>

definition handlePredict :: "fetch_outcome \<Rightarrow> app_state \<Rightarrow> app_state \<times> effect list" where
  "handlePredict net s =
     (let a = map name (Object_values (teamA (lineups s)));
          b = map name (Object_values (teamB (lineups s)))
      in if length a < 11 \<or> length b < 11
         then (s, [Alert ''Both teams must have 11 players selected!''])
         else (case net of
                 Response st (Some result) \<Rightarrow>
                   (s\<lparr>prediction := result, loading := False\<rparr>, [Fetch (predict_request a b)])
               | Response st None \<Rightarrow>
                   (s\<lparr>loading := False\<rparr>,
                    [Fetch (predict_request a b), Alert ''Failed to reach prediction engine.''])
               | NetworkError \<Rightarrow>
                   (s\<lparr>loading := False\<rparr>,
                    [Fetch (predict_request a b), Alert ''Failed to reach prediction engine.''])))"

text \<open>The result panel in the header is rendered when the stored prediction is truthy.\<close>

definition prediction_shown :: "app_state \<Rightarrow> bool" where
  "prediction_shown s = truthy (prediction s)"

section \<open>The client-side search filter\<close>

definition filteredPlayers :: "app_state \<Rightarrow> player list" where
  "filteredPlayers s =
     filter (\<lambda>p. includes_str (toLowerCase (name p)) (toLowerCase (searchTerm s)) \<or>
                 includes_str (toLowerCase (team p)) (toLowerCase (searchTerm s)))
       (playersDb s)"



section \<open>Team logos and the player-selection modal\<close>

text \<open>
  \<open>s.replace(/\s+/g, '-')\<close>: the scan goes from left to right; where a white space unit
  is met, the longest run of white space from there is replaced by one hyphen and the scan
  goes on behind the run; any other unit is copied.
\<close>

function replace_ws :: "string \<Rightarrow> string" where
  "replace_ws [] = []"
| "replace_ws (c # cs) =
     (if is_space c then CHR ''-'' # replace_ws (dropWhile is_space cs)
      else c # replace_ws cs)"
  by pat_completeness auto
termination
  by (relation "measure length") (auto simp: length_dropWhile_le le_imp_less_Suc)

datatype error = TypeError

text \<open>
  \<open>getLogoUrl\<close>: a falsy argument gives the default logo; a non-empty string gives the
  logo path; on any other value \<open>teamName.toLowerCase\<close> is not a function.
\<close>

definition getLogoUrl :: "jsval \<Rightarrow> error + string" where
  "getLogoUrl teamName =
     (if \<not> truthy teamName then Inr ''/logos/default.png''
      else (case teamName of
              JStr t \<Rightarrow> Inr (''/logos/'' @ replace_ws (toLowerCase t) @ ''.football-logos.cc.svg'')
            | _ \<Rightarrow> Inl TypeError))"

text \<open>
  The specification's wording for the file name: the text is cut into its maximal runs of
  white space and of other units, and every run of white space becomes one hyphen.
\<close>

fun runs :: "('a \<Rightarrow> bool) \<Rightarrow> 'a list \<Rightarrow> 'a list list" where
  "runs P [] = []"
| "runs P (x # xs) =
     (case runs P xs of
        [] \<Rightarrow> [[x]]
      | r # rs \<Rightarrow> if P x = P (hd r) then (x # r) # rs else [x] # r # rs)"

definition dash_runs :: "string \<Rightarrow> string" where
  "dash_runs s = concat (map (\<lambda>r. if is_space (hd r) then ''-'' else r) (runs is_space s))"

text \<open>
  One button of the modal's list, for one player: the name, the logo source, the team
  line, the position badge (\<open>player.pos\<close>) and the age (\<open>player.age\<close>).
\<close>

record modal_row =
  row_name :: string
  row_logo :: "error + string"
  row_team :: string
  row_badge :: jsval
  row_age :: jsval

definition player_row :: "player \<Rightarrow> modal_row" where
  "player_row p =
     \<lparr>row_name = name p,
      row_logo = getLogoUrl (JStr (team p)),
      row_team = team p,
      row_badge = get_prop p ''pos'',
      row_age = get_prop p ''age''\<rparr>"

text \<open>The modal is rendered only while a slot is active; it lists the filtered players.\<close>

definition modal_rows :: "app_state \<Rightarrow> modal_row list option" where
  "modal_rows s = (if activeSlot s = None then None else Some (map player_row (filteredPlayers s)))"

section \<open>The component as a transition system\<close>

text \<open>
  The events that change the state: the answer of \<open>GET /players\<close>, a click on a slot of
  a pitch (the pitch renders one slot for each key of \<open>FORMATION_433\<close>), closing the
  modal, typing in the search box, a click on a listed player, the two fill buttons and
  the predict button (disabled while loading).
\<close>

datatype event =
    PlayersLoaded "player list"
  | ClickSlot team_key string
  | CloseModal
  | TypeSearch string
  | ClickPlayer player
  | FillTeam team_key
  | ClickPredict fetch_outcome

fun default_names :: "team_key \<Rightarrow> string list" where
  "default_names TeamA = TEAM_A_DEFAULT"
| "default_names TeamB = TEAM_B_DEFAULT"

fun enabled :: "event \<Rightarrow> app_state \<Rightarrow> bool" where
  "enabled (PlayersLoaded ps) s = True"
| "enabled (ClickSlot t k) s = (k \<in> set (Object_keys FORMATION_433))"
| "enabled CloseModal s = (activeSlot s \<noteq> None)"
| "enabled (TypeSearch v) s = (activeSlot s \<noteq> None)"
| "enabled (ClickPlayer pl) s = (activeSlot s \<noteq> None \<and> pl \<in> set (filteredPlayers s))"
| "enabled (FillTeam t) s = True"
| "enabled (ClickPredict net) s = (\<not> loading s)"

fun step :: "event \<Rightarrow> app_state \<Rightarrow> app_state" where
  "step (PlayersLoaded ps) s = s\<lparr>playersDb := ps\<rparr>"
| "step (ClickSlot t k) s = s\<lparr>activeSlot := Some (t, k)\<rparr>"
| "step CloseModal s = s\<lparr>activeSlot := None\<rparr>"
| "step (TypeSearch v) s = s\<lparr>searchTerm := v\<rparr>"
| "step (ClickPlayer pl) s = selectPlayer pl s"
| "step (FillTeam t) s = fillTeamWithDefaults t (default_names t) s"
| "step (ClickPredict net) s = fst (handlePredict net s)"

inductive reachable :: "app_state \<Rightarrow> bool" where
  reachable_init: "reachable init_state"
| reachable_step: "reachable s \<Longrightarrow> enabled e s \<Longrightarrow> reachable (step e s)"

text \<open>Running a list of events from a state; \<open>None\<close> when one of them is not enabled.\<close>

fun run :: "event list \<Rightarrow> app_state \<Rightarrow> app_state option" where
  "run [] s = Some s"
| "run (e # es) s = (if enabled e s then run es (step e s) else None)"

text \<open>
  The slot invariant: the keys of a lineup are among the eleven roles, no key occurs
  twice, and there are at most eleven entries; an active slot names one of the roles.
\<close>

definition roles :: "string set" where
  "roles = {''GK'', ''RB'', ''RCB'', ''LCB'', ''LB'', ''RCM'', ''CDM'', ''LCM'', ''RW'', ''ST'', ''LW''}"

definition lineup_ok :: "lineup \<Rightarrow> bool" where
  "lineup_ok l \<longleftrightarrow>
     set (Object_keys l) \<subseteq> roles \<and> distinct (Object_keys l) \<and> length (Object_values l) \<le> 11"

definition slots_ok :: "app_state \<Rightarrow> bool" where
  "slots_ok s \<longleftrightarrow>
     lineup_ok (teamA (lineups s)) \<and> lineup_ok (teamB (lineups s)) \<and>
     (case activeSlot s of None \<Rightarrow> True | Some (t, k) \<Rightarrow> k \<in> roles)"

section \<open>The Statistic Blender\<close>

text \<open>Modelled from the spec: the Statistic Blender (section 4.1) is not in the sources, which
  hold the client only. The observations of one metric of one player are a list of values,
  oldest first. \<open>mean\<close> is the arithmetic mean.
\<close>

definition mean :: "real list \<Rightarrow> real" where
  "mean xs = sum_list xs / real (length xs)"

text \<open>Modelled from the spec: the season baseline of the absent Blender, the mean over the
  whole observed series.
\<close>

definition season_baseline :: "real list \<Rightarrow> real" where
  "season_baseline obs = mean obs"

text \<open>Modelled from the spec: the rolling form of the absent Blender, the mean over the most
  recent \<open>w\<close> observations, and over all of them when there are fewer than \<open>w\<close>. The
  window size \<open>w\<close> is a positive configuration constant.
\<close>

definition rolling_form :: "nat \<Rightarrow> real list \<Rightarrow> real" where
  "rolling_form w obs = mean (drop (length obs - w) obs)"

text \<open>Modelled from the spec: the blend of the absent Blender,
  \<open>v = \<alpha> \<cdot> rolling_form + (1 - \<alpha>) \<cdot> season_baseline\<close>.
\<close>

definition blend :: "real \<Rightarrow> real \<Rightarrow> real \<Rightarrow> real" where
  "blend \<alpha> rolling season = \<alpha> * rolling + (1 - \<alpha>) * season"

text \<open>Modelled from the spec: the result of the absent Blender, a value or the sentinel
  "unknown" of a metric without observations.
\<close>

datatype blended = Unknown | Blended real

text \<open>Modelled from the spec: the contract of the absent Blender for one player and one
  metric; a metric without observations is reported as unknown.
\<close>

definition statistic_blender :: "real \<Rightarrow> nat \<Rightarrow> real list \<Rightarrow> blended" where
  "statistic_blender \<alpha> w obs =
     (if obs = [] then Unknown
      else Blended (blend \<alpha> (rolling_form w obs) (season_baseline obs)))"

section \<open>Sample data\<close>

text \<open>
  A database of twenty-two players that carries the two default elevens, and the states
  reached from the start by a few events; the properties below are evaluated on them.
\<close>

definition demo_player :: "string \<Rightarrow> string \<Rightarrow> player" where
  "demo_player n t = \<lparr>name = n, team = t, props = [(''pos'', JStr ''MF''), (''age'', JNum 27)]\<rparr>"

definition demo_db :: "player list" where
  "demo_db =
     map (\<lambda>n. demo_player n ''Liverpool'') TEAM_A_DEFAULT @
     map (\<lambda>n. demo_player n ''Manchester City'') TEAM_B_DEFAULT"

definition rodri :: player where
  "rodri = demo_player ''Rodri'' ''Manchester City''"

text \<open>Both sides filled with their default eleven.\<close>

definition full_events :: "event list" where
  "full_events = [PlayersLoaded demo_db, FillTeam TeamA, FillTeam TeamB]"

definition full_state :: app_state where
  "full_state = fold step full_events init_state"

text \<open>The modal open on the home striker slot, with a search term typed in.\<close>

definition pick_events :: "event list" where
  "pick_events = [PlayersLoaded demo_db, ClickSlot TeamA ''ST'', TypeSearch ''CITY'']"

definition pick_state :: app_state where
  "pick_state = fold step pick_events init_state"




text \<open>An error object as the service returns it for a lineup it rejects.\<close>

definition error_body :: jsval where
  "error_body = JObj [(''detail'', JStr ''Unknown player: Damien Delaney'')]"

text \<open>A player record with the fields of the interface description.\<close>

definition spec_record :: player where
  "spec_record =
     \<lparr>name = ''Rodri'', team = ''Manchester City'',
      props = [(''position'', JStr ''Midfielder''), (''age'', JNum 28)]\<rparr>"

text \<open>A series of expected-goal observations, oldest first.\<close>

definition xg_series :: "real list" where
  "xg_series = [2/10, 2/10, 6/10, 6/10]"

section \<open>Facts\<close>

subsection \<open>Facts about the string methods\<close>



lemma includes_empty [simp]: "includes_str s []"
  by (induction s) auto



subsection \<open>Facts about objects and lineups\<close>

lemma map_of_obj_set: "map_of (obj_set k v l) = (map_of l)(k \<mapsto> v)"
  by (induction l) (auto simp: fun_eq_iff)

lemma keys_obj_set:
  "map fst (obj_set k v l) = (if k \<in> fst ` set l then map fst l else map fst l @ [k])"
  by (induction l) auto

lemma distinct_obj_set: "distinct (map fst l) \<Longrightarrow> distinct (map fst (obj_set k v l))"
  by (simp add: keys_obj_set)

lemma set_keys_obj_set: "set (map fst (obj_set k v l)) = insert k (set (map fst l))"
  by (auto simp: keys_obj_set)

lemma lineup_of_with_lineup: "lineup_of t (with_lineup t l ls) = l"
  by (cases t) auto

lemma lineup_of_with_lineup_other: "lineup_of (other_team t) (with_lineup t l ls) = lineup_of (other_team t) ls"
  by (cases t) auto

subsection \<open>Facts about the default fill\<close>

lemma distinct_FORMATION_ORDER: "distinct FORMATION_ORDER"
  by (simp add: FORMATION_ORDER_def)

lemma length_FORMATION_ORDER: "length FORMATION_ORDER = 11"
  by (simp add: FORMATION_ORDER_def)

lemma set_FORMATION_ORDER: "set FORMATION_ORDER = roles"
  by (auto simp: FORMATION_ORDER_def roles_def)

lemma keys_FORMATION_433: "Object_keys FORMATION_433 = FORMATION_ORDER"
  by (simp add: FORMATION_433_def FORMATION_ORDER_def Object_keys_def)

lemma map_of_fill_slot:
  "map_of (fill_slot db names (k0, i0) acc) k =
     (if k = k0
      then (case find_by_name db (array_get names i0) of
              Some p \<Rightarrow> Some p
            | None \<Rightarrow> map_of acc k)
      else map_of acc k)"
  by (simp add: fill_slot_def map_of_obj_set split: option.splits)

lemma map_of_fold_fill:
  "distinct (map fst kis) \<Longrightarrow>
   map_of (fold (fill_slot db names) kis acc) k =
     (case map_of kis k of
        None \<Rightarrow> map_of acc k
      | Some i \<Rightarrow> (case find_by_name db (array_get names i) of
                     Some p \<Rightarrow> Some p
                   | None \<Rightarrow> map_of acc k))"
proof (induction kis arbitrary: acc)
  case Nil
  then show ?case by simp
next
  case (Cons e kis)
  obtain k0 i0 where e: "e = (k0, i0)" by (cases e)
  from Cons.prems e have notin: "k0 \<notin> fst ` set kis" and d: "distinct (map fst kis)" by auto
  have IH: "map_of (fold (fill_slot db names) kis (fill_slot db names e acc)) k =
     (case map_of kis k of
        None \<Rightarrow> map_of (fill_slot db names e acc) k
      | Some i \<Rightarrow> (case find_by_name db (array_get names i) of
                     Some p \<Rightarrow> Some p
                   | None \<Rightarrow> map_of (fill_slot db names e acc) k))"
    using Cons.IH [OF d] .
  show ?case
  proof (cases "k = k0")
    case True
    with notin have "map_of kis k = None" by (simp add: map_of_eq_None_iff)
    with True e IH show ?thesis
      by (simp add: map_of_fill_slot split: option.splits)
  next
    case False
    with e have "map_of (fill_slot db names e acc) k = map_of acc k"
      by (simp add: map_of_fill_slot)
    with False e IH show ?thesis by (simp split: option.splits)
  qed
qed

lemma keys_fold_fill:
  "set (map fst (fold (fill_slot db names) kis acc)) \<subseteq> fst ` set kis \<union> set (map fst acc)"
proof (induction kis arbitrary: acc)
  case Nil
  then show ?case by simp
next
  case (Cons e kis)
  have "set (map fst (fill_slot db names e acc)) \<subseteq> insert (fst e) (set (map fst acc))"
    by (auto simp: fill_slot_def set_keys_obj_set simp del: set_map split: option.splits)
  with Cons.IH [of "fill_slot db names e acc"] show ?case by auto
qed

lemma distinct_fold_fill:
  "distinct (map fst acc) \<Longrightarrow> distinct (map fst (fold (fill_slot db names) kis acc))"
proof (induction kis arbitrary: acc)
  case Nil
  then show ?case by simp
next
  case (Cons e kis)
  from Cons.prems have "distinct (map fst (fill_slot db names e acc))"
    by (simp add: fill_slot_def distinct_obj_set split: option.splits)
  then show ?case using Cons.IH by simp
qed

lemma find_by_name_array_get:
  "find_by_name db (array_get names i) =
     (if i < length names then List.find (\<lambda>p. name p = names ! i) db else None)"
  by (simp add: find_by_name_def array_get_def find_None_iff)

lemma map_of_zip_order:
  "i < length FORMATION_ORDER \<Longrightarrow>
   map_of (zip FORMATION_ORDER [0 ..< length FORMATION_ORDER]) (FORMATION_ORDER ! i) = Some i"
  using map_of_zip_nth [of FORMATION_ORDER "[0 ..< length FORMATION_ORDER]" i]
  by (simp add: distinct_FORMATION_ORDER)

subsection \<open>The slot invariant along every run\<close>

lemma card_roles: "card roles = 11"
  by (simp add: roles_def)

lemma finite_roles: "finite roles"
  by (simp add: roles_def)

lemma keys_bound:
  assumes "set ks \<subseteq> roles" and "distinct ks"
  shows "length ks \<le> 11"
proof -
  from assms(2) have "length ks = card (set ks)" by (simp add: distinct_card)
  also from assms(1) have "\<dots> \<le> card roles" by (simp add: card_mono finite_roles)
  finally show ?thesis by (simp add: card_roles)
qed

lemma lineup_okI:
  "set (map fst l) \<subseteq> roles \<Longrightarrow> distinct (map fst l) \<Longrightarrow> lineup_ok l"
  using keys_bound [of "map fst l"] by (simp add: lineup_ok_def Object_keys_def Object_values_def)

lemma lineup_ok_obj_set:
  assumes "lineup_ok l" and "k \<in> roles"
  shows "lineup_ok (obj_set k v l)"
proof (rule lineup_okI)
  from assms show "set (map fst (obj_set k v l)) \<subseteq> roles"
    unfolding set_keys_obj_set by (simp add: lineup_ok_def Object_keys_def)
  from assms show "distinct (map fst (obj_set k v l))"
    by (simp add: distinct_obj_set lineup_ok_def Object_keys_def)
qed

lemma lineup_ok_filled:
  "lineup_ok (fold (fill_slot db names) (zip FORMATION_ORDER [0 ..< length FORMATION_ORDER]) [])"
proof (rule lineup_okI)
  have "fst ` set (zip FORMATION_ORDER [0 ..< length FORMATION_ORDER]) \<subseteq> set FORMATION_ORDER"
    by (auto dest: set_zip_leftD)
  with keys_fold_fill [of db names "zip FORMATION_ORDER [0 ..< length FORMATION_ORDER]" "[]"]
  show "set (map fst (fold (fill_slot db names)
               (zip FORMATION_ORDER [0 ..< length FORMATION_ORDER]) [])) \<subseteq> roles"
    by (auto simp: set_FORMATION_ORDER)
  show "distinct (map fst (fold (fill_slot db names)
               (zip FORMATION_ORDER [0 ..< length FORMATION_ORDER]) []))"
    by (rule distinct_fold_fill) simp
qed

lemma lineup_ok_with_lineup:
  "lineup_ok l \<Longrightarrow> lineup_ok (teamA ls) \<Longrightarrow> lineup_ok (teamB ls) \<Longrightarrow>
   lineup_ok (teamA (with_lineup t l ls)) \<and> lineup_ok (teamB (with_lineup t l ls))"
  by (cases t) auto

lemma lineup_ok_lineup_of:
  "lineup_ok (teamA ls) \<Longrightarrow> lineup_ok (teamB ls) \<Longrightarrow> lineup_ok (lineup_of t ls)"
  by (cases t) auto

lemma slots_ok_selectPlayer: "slots_ok s \<Longrightarrow> slots_ok (selectPlayer pl s)"
proof (cases "activeSlot s")
  case None
  assume "slots_ok s"
  with None show ?thesis by (simp add: selectPlayer_def)
next
  case (Some a)
  assume ok: "slots_ok s"
  obtain t k where a: "a = (t, k)" by (cases a)
  from ok Some a have k: "k \<in> roles" by (simp add: slots_ok_def)
  from ok have AB: "lineup_ok (teamA (lineups s))" "lineup_ok (teamB (lineups s))"
    by (simp_all add: slots_ok_def)
  then have "lineup_ok (obj_set k pl (lineup_of t (lineups s)))"
    by (intro lineup_ok_obj_set lineup_ok_lineup_of k)
  with AB have "lineup_ok (teamA (with_lineup t (obj_set k pl (lineup_of t (lineups s))) (lineups s))) \<and>
     lineup_ok (teamB (with_lineup t (obj_set k pl (lineup_of t (lineups s))) (lineups s)))"
    by (intro lineup_ok_with_lineup)
  with Some a show ?thesis by (simp add: selectPlayer_def slots_ok_def)
qed

lemma slots_ok_fillTeamWithDefaults: "slots_ok s \<Longrightarrow> slots_ok (fillTeamWithDefaults t names s)"
proof -
  assume ok: "slots_ok s"
  then have AB: "lineup_ok (teamA (lineups s))" "lineup_ok (teamB (lineups s))"
    by (simp_all add: slots_ok_def)
  let ?f = "fold (fill_slot (playersDb s) names) (zip FORMATION_ORDER [0 ..< length FORMATION_ORDER]) []"
  from AB have "lineup_ok (teamA (with_lineup t ?f (lineups s))) \<and>
     lineup_ok (teamB (with_lineup t ?f (lineups s)))"
    by (intro lineup_ok_with_lineup lineup_ok_filled)
  with ok show ?thesis by (simp add: fillTeamWithDefaults_def slots_ok_def Let_def)
qed

lemma handlePredict_keeps:
  "lineups (fst (handlePredict net s)) = lineups s \<and>
   activeSlot (fst (handlePredict net s)) = activeSlot s \<and>
   playersDb (fst (handlePredict net s)) = playersDb s \<and>
   searchTerm (fst (handlePredict net s)) = searchTerm s"
  by (simp add: handlePredict_def Let_def split: fetch_outcome.splits option.splits)

lemma slots_ok_init: "slots_ok init_state"
  by (simp add: slots_ok_def init_state_def lineup_ok_def Object_keys_def Object_values_def)

lemma slots_ok_step: "slots_ok s \<Longrightarrow> enabled e s \<Longrightarrow> slots_ok (step e s)"
proof (cases e)
  case (ClickSlot t k)
  assume "slots_ok s" "enabled e s"
  with ClickSlot show ?thesis
    by (simp add: slots_ok_def keys_FORMATION_433 set_FORMATION_ORDER)
next
  case (ClickPlayer pl)
  assume "slots_ok s"
  with ClickPlayer show ?thesis by (simp add: slots_ok_selectPlayer)
next
  case (FillTeam t)
  assume "slots_ok s"
  with FillTeam show ?thesis by (simp add: slots_ok_fillTeamWithDefaults)
next
  case (ClickPredict net)
  assume "slots_ok s"
  with ClickPredict show ?thesis by (simp add: slots_ok_def handlePredict_keeps)
qed (simp_all add: slots_ok_def)

lemma reachable_slots_ok: "reachable s \<Longrightarrow> slots_ok s"
  by (induction rule: reachable.induct) (simp_all add: slots_ok_init slots_ok_step)

lemma run_reachable: "reachable s \<Longrightarrow> run es s = Some s' \<Longrightarrow> reachable s'"
proof (induction es arbitrary: s)
  case Nil
  then show ?case by simp
next
  case (Cons e es)
  from Cons.prems(2) have en: "enabled e s" and r: "run es (step e s) = Some s'"
    by (simp_all split: if_splits)
  from Cons.prems(1) en have "reachable (step e s)" by (rule reachable_step)
  then show ?case using r by (rule Cons.IH)
qed


subsection \<open>Runs of white space\<close>

text \<open>
  The runs of a text give the text back, none of them is empty, each of them lies in one
  class, and neighbouring runs lie in different classes: the runs are maximal.
\<close>

lemma runs_Nil_iff: "runs P xs = [] \<longleftrightarrow> xs = []"
  by (cases xs) (auto split: list.splits)

lemma concat_runs: "concat (runs P xs) = xs"
  by (induction xs) (auto split: list.splits)

lemma runs_nonempty: "r \<in> set (runs P xs) \<Longrightarrow> r \<noteq> []"
  by (induction xs arbitrary: r) (auto split: list.splits if_splits)

lemma hd_hd_runs: "hd (hd (runs P (x # xs))) = x"
  by (auto split: list.splits)

lemma runs_uniform: "r \<in> set (runs P xs) \<Longrightarrow> y \<in> set r \<Longrightarrow> P y = P (hd r)"
proof (induction xs arbitrary: r y)
  case Nil
  then show ?case by simp
next
  case (Cons x xs)
  show ?case
  proof (cases "runs P xs")
    case Nil
    with Cons.prems show ?thesis by simp
  next
    case (Cons q qs)
    have q: "\<And>z. z \<in> set q \<Longrightarrow> P z = P (hd q)"
      using Cons.IH [of q] Cons by simp
    have qs: "\<And>r' z. r' \<in> set qs \<Longrightarrow> z \<in> set r' \<Longrightarrow> P z = P (hd r')"
      using Cons.IH Cons by simp
    show ?thesis
    proof (cases "P x = P (hd q)")
      case True
      with Cons Cons.prems(1) consider "r = x # q" | "r \<in> set qs" by auto
      then show ?thesis
      proof cases
        case 1
        with Cons.prems(2) True q show ?thesis by auto
      next
        case 2
        with Cons.prems(2) qs show ?thesis by blast
      qed
    next
      case False
      with Cons Cons.prems(1) consider "r = [x]" | "r = q" | "r \<in> set qs" by auto
      then show ?thesis
      proof cases
        case 1
        with Cons.prems(2) show ?thesis by simp
      next
        case 2
        with Cons.prems(2) q show ?thesis by blast
      next
        case 3
        with Cons.prems(2) qs show ?thesis by blast
      qed
    qed
  qed
qed

lemma runs_maximal:
  "Suc i < length (runs P xs) \<Longrightarrow> P (hd (runs P xs ! i)) \<noteq> P (hd (runs P xs ! Suc i))"
proof (induction xs arbitrary: i)
  case Nil
  then show ?case by simp
next
  case (Cons x xs)
  note prems = Cons.prems and IH = Cons.IH
  show ?case
  proof (cases "runs P xs")
    case Nil
    with prems show ?thesis by simp
  next
    case (Cons q qs)
    show ?thesis
    proof (cases "P x = P (hd q)")
      case True
      with Cons have eq: "runs P (x # xs) = (x # q) # qs" by simp
      show ?thesis
      proof (cases i)
        case 0
        from prems have "Suc 0 < length (runs P xs)" unfolding eq 0 Cons by simp
        from IH [OF this] have "P (hd q) \<noteq> P (hd (qs ! 0))" unfolding Cons by simp
        with True show ?thesis unfolding eq 0 by simp
      next
        case (Suc j)
        from prems have "Suc (Suc j) < length (runs P xs)" unfolding eq Suc Cons by simp
        from IH [OF this] show ?thesis unfolding eq Suc Cons by simp
      qed
    next
      case False
      with Cons have eq: "runs P (x # xs) = [x] # q # qs" by simp
      show ?thesis
      proof (cases i)
        case 0
        with False show ?thesis unfolding eq by simp
      next
        case (Suc j)
        from prems have "Suc j < length (runs P xs)" unfolding eq Suc Cons by simp
        from IH [OF this] show ?thesis unfolding eq Suc Cons by simp
      qed
    qed
  qed
qed

lemma dash_runs_Nil: "dash_runs [] = []"
  by (simp add: dash_runs_def)

lemma hd_runs_Cons: "runs P (d # ds) = r # rs \<Longrightarrow> P (hd r) = P d"
  using hd_hd_runs [of P d ds] by simp

lemma dash_runs_Cons:
  "dash_runs (c # cs) =
     (if is_space c
      then (case cs of
              [] \<Rightarrow> ''-''
            | d # ds \<Rightarrow> if is_space d then dash_runs cs else CHR ''-'' # dash_runs cs)
      else c # dash_runs cs)"
proof (cases cs)
  case Nil
  then show ?thesis by (simp add: dash_runs_def)
next
  case (Cons d ds)
  then obtain r rs where r: "runs is_space cs = r # rs"
    using runs_Nil_iff [of is_space cs] by (cases "runs is_space cs") (simp_all del: runs.simps)
  with Cons have h: "is_space (hd r) = is_space d" by (simp add: hd_runs_Cons)
  from r have ne: "r \<noteq> []" using runs_nonempty [of r is_space cs] by simp
  show ?thesis
  proof (cases "is_space c")
    case True
    with r h Cons ne show ?thesis by (simp add: dash_runs_def)
  next
    case False
    with r h Cons ne show ?thesis by (simp add: dash_runs_def)
  qed
qed

lemma replace_ws_Cons:
  "replace_ws (c # cs) =
     (if is_space c
      then (case cs of
              [] \<Rightarrow> ''-''
            | d # ds \<Rightarrow> if is_space d then replace_ws cs else CHR ''-'' # replace_ws cs)
      else c # replace_ws cs)"
  by (cases cs) auto

lemma replace_ws_dash_runs: "replace_ws s = dash_runs s"
proof (induction s)
  case Nil
  then show ?case by (simp add: dash_runs_Nil)
next
  case (Cons c cs)
  then show ?case
    by (simp only: replace_ws_Cons dash_runs_Cons)
qed

subsection \<open>The blend lies between its two inputs\<close>

lemma blend_bounds:
  assumes "0 \<le> \<alpha>" and "\<alpha> \<le> 1"
  shows "min rolling season \<le> blend \<alpha> rolling season"
    and "blend \<alpha> rolling season \<le> max rolling season"
proof -
  have lo: "blend \<alpha> rolling season - min rolling season =
      \<alpha> * (rolling - min rolling season) + (1 - \<alpha>) * (season - min rolling season)"
    by (simp add: blend_def algebra_simps)
  have "0 \<le> \<alpha> * (rolling - min rolling season)" "0 \<le> (1 - \<alpha>) * (season - min rolling season)"
    using assms by (simp_all add: mult_nonneg_nonneg)
  with lo show "min rolling season \<le> blend \<alpha> rolling season" by linarith
  have hi: "max rolling season - blend \<alpha> rolling season =
      \<alpha> * (max rolling season - rolling) + (1 - \<alpha>) * (max rolling season - season)"
    by (simp add: blend_def algebra_simps)
  have "0 \<le> \<alpha> * (max rolling season - rolling)" "0 \<le> (1 - \<alpha>) * (max rolling season - season)"
    using assms by (simp_all add: mult_nonneg_nonneg)
  with hi show "blend \<alpha> rolling season \<le> max rolling season" by linarith
qed

subsection \<open>The sample states\<close>


lemma run_pick: "run pick_events init_state = Some pick_state"
  by code_simp



lemma reachable_pick: "reachable pick_state"
  using run_reachable [OF reachable_init run_pick] .


lemma names_full:
  "map name (Object_values (teamA (lineups full_state))) = TEAM_A_DEFAULT \<and>
   map name (Object_values (teamB (lineups full_state))) = TEAM_B_DEFAULT"
  by code_simp

section \<open>Properties of the client and of the Blender\<close>

text \<open>
  C1. In every state in which both sides hold 11 selected players, \<open>handlePredict\<close>
  sends exactly one request, a POST to \<open>/predict\<close> whose body is the object with the 11
  home names under \<open>team_a_players\<close> and the 11 away names under \<open>team_b_players\<close>.
  In every state in which a side holds fewer than 11 players, no request is sent and the
  stored prediction is unchanged.
\<close>

theorem handlePredict_request:
  "(length (Object_values (teamA (lineups s))) = 11 \<and>
    length (Object_values (teamB (lineups s))) = 11 \<longrightarrow>
      requests_of (snd (handlePredict net s)) =
        [\<lparr>url = ''http://localhost:8000/predict'',
          method_http = ''POST'',
          headers = [(''Content-Type'', ''application/json'')],
          body = JObj [(''team_a_players'',
                         JArr (map JStr (map name (Object_values (teamA (lineups s)))))),
                       (''team_b_players'',
                         JArr (map JStr (map name (Object_values (teamB (lineups s))))))]\<rparr>])
   \<and> (length (Object_values (teamA (lineups s))) < 11 \<or>
      length (Object_values (teamB (lineups s))) < 11 \<longrightarrow>
        requests_of (snd (handlePredict net s)) = [] \<and>
        prediction (fst (handlePredict net s)) = prediction s)"
  by (simp add: handlePredict_def Let_def predict_request_def API_BASE_URL_def
      split: fetch_outcome.splits option.splits)

text \<open>
  The property at the state with both default elevens, and at a state with empty sides.
\<close>

theorem handlePredict_request_witness:
  "length (Object_values (teamA (lineups full_state))) = 11 \<and>
   length (Object_values (teamB (lineups full_state))) = 11 \<and>
   requests_of (snd (handlePredict NetworkError full_state)) =
     [predict_request TEAM_A_DEFAULT TEAM_B_DEFAULT] \<and>
   length (Object_values (teamA (lineups pick_state))) < 11 \<and>
   requests_of (snd (handlePredict NetworkError pick_state)) = [] \<and>
   prediction (fst (handlePredict NetworkError pick_state)) = prediction pick_state"
proof -
  have a: "length (Object_values (teamA (lineups full_state))) = 11"
    "length (Object_values (teamB (lineups full_state))) = 11"
    "length (Object_values (teamA (lineups pick_state))) < 11"
    by code_simp+
  from handlePredict_request [of full_state NetworkError] handlePredict_request [of pick_state NetworkError]
    a names_full
  show ?thesis by (simp add: predict_request_def API_BASE_URL_def)
qed




text \<open>
  C3, as amended. Once the request is sent, the client does not look at the status of the
  response: a body that parses as JSON is stored as the prediction, whatever the status and
  whatever the body, and no error is raised. Only when the request fails or the body does
  not parse does the client raise the alert "Failed to reach prediction engine." and keep
  the stored prediction.
\<close>

theorem handlePredict_response:
  "\<not> (length (Object_values (teamA (lineups s))) < 11 \<or>
      length (Object_values (teamB (lineups s))) < 11) \<longrightarrow>
   (prediction (fst (handlePredict (Response st (Some result)) s)) = result \<and>
    alerts_of (snd (handlePredict (Response st (Some result)) s)) = [])
   \<and> (prediction (fst (handlePredict (Response st None) s)) = prediction s \<and>
      alerts_of (snd (handlePredict (Response st None) s)) =
        [''Failed to reach prediction engine.''])
   \<and> (prediction (fst (handlePredict NetworkError s)) = prediction s \<and>
      alerts_of (snd (handlePredict NetworkError s)) =
        [''Failed to reach prediction engine.''])"
  by (simp add: handlePredict_def Let_def)

text \<open>
  The amended property at the state with both default elevens.
\<close>

theorem handlePredict_response_witness:
  "\<not> (length (Object_values (teamA (lineups full_state))) < 11 \<or>
      length (Object_values (teamB (lineups full_state))) < 11) \<and>
   prediction (fst (handlePredict (Response 200 (Some (JObj [(''team_a_expected_goals'', JNum 2)]))) full_state)) =
     JObj [(''team_a_expected_goals'', JNum 2)] \<and>
   prediction (fst (handlePredict NetworkError full_state)) = prediction full_state \<and>
   alerts_of (snd (handlePredict NetworkError full_state)) = [''Failed to reach prediction engine.'']"
proof -
  have a: "length (Object_values (teamA (lineups full_state))) = 11"
    "length (Object_values (teamB (lineups full_state))) = 11"
    by code_simp+
  from handlePredict_response [of full_state 200 "JObj [(''team_a_expected_goals'', JNum 2)]"] a
  show ?thesis by simp
qed

text \<open>
  C3, as stated, fails: an error object returned with status 422 is stored as the
  prediction, no alert is raised, and the result panel is shown.
\<close>

theorem error_stored_as_prediction:
  "length (Object_values (teamA (lineups full_state))) = 11 \<and>
   length (Object_values (teamB (lineups full_state))) = 11 \<and>
   prediction (fst (handlePredict (Response 422 (Some error_body)) full_state)) = error_body \<and>
   alerts_of (snd (handlePredict (Response 422 (Some error_body)) full_state)) = [] \<and>
   prediction_shown (fst (handlePredict (Response 422 (Some error_body)) full_state))"
  by code_simp

text \<open>
  C4. In every reachable state the slot keys of both lineups are among the eleven roles,
  no key occurs twice (a slot holds at most one player), and a lineup has at most 11
  players. \<open>selectPlayer\<close> and \<open>fillTeamWithDefaults\<close> preserve the invariant.
\<close>

theorem slot_invariant:
  "(reachable s \<longrightarrow> lineup_ok (teamA (lineups s)) \<and> lineup_ok (teamB (lineups s)))
   \<and> (slots_ok s \<longrightarrow> slots_ok (selectPlayer pl s))
   \<and> (slots_ok s \<longrightarrow> slots_ok (fillTeamWithDefaults t names s))"
proof (intro conjI impI)
  assume "reachable s"
  then have "slots_ok s" by (rule reachable_slots_ok)
  then show "lineup_ok (teamA (lineups s))" and "lineup_ok (teamB (lineups s))"
    by (simp_all add: slots_ok_def)
next
  assume "slots_ok s"
  then show "slots_ok (selectPlayer pl s)" by (rule slots_ok_selectPlayer)
next
  assume "slots_ok s"
  then show "slots_ok (fillTeamWithDefaults t names s)" by (rule slots_ok_fillTeamWithDefaults)
qed

text \<open>
  The invariant at the state with the modal open on the home striker slot.
\<close>

theorem slot_invariant_witness:
  "reachable pick_state \<and> slots_ok pick_state \<and>
   lineup_ok (teamA (lineups pick_state)) \<and> lineup_ok (teamB (lineups pick_state)) \<and>
   slots_ok (selectPlayer rodri pick_state) \<and>
   slots_ok (fillTeamWithDefaults TeamA TEAM_A_DEFAULT pick_state)"
  using slot_invariant [of pick_state rodri TeamA TEAM_A_DEFAULT] reachable_pick
    reachable_slots_ok [OF reachable_pick]
  by simp

text \<open>
  C5. For a blend coefficient \<open>\<alpha>\<close> in \<open>[0, 1]\<close> the blend of a rolling form and a season
  baseline is \<open>\<alpha> \<cdot> rolling_form + (1 - \<alpha>) \<cdot> season_baseline\<close>, a value between the two,
  and it is what the Blender returns for every metric of a player that has observations
  (the window holds at least one match); with season xG 0.40, rolling-form xG 0.60 and
  \<open>\<alpha> = 0.5\<close> the blended xG is 0.50.
\<close>

theorem statistic_blender_spec:
  "0 \<le> \<alpha> \<and> \<alpha> \<le> 1 \<longrightarrow>
     blend \<alpha> rolling season = \<alpha> * rolling + (1 - \<alpha>) * season \<and>
     min rolling season \<le> blend \<alpha> rolling season \<and>
     blend \<alpha> rolling season \<le> max rolling season \<and>
     (obs \<noteq> [] \<and> 0 < w \<longrightarrow>
        statistic_blender \<alpha> w obs =
          Blended (\<alpha> * rolling_form w obs + (1 - \<alpha>) * season_baseline obs)) \<and>
     (obs \<noteq> [] \<and> 0 < w \<and> season_baseline obs = 40 / 100 \<and> rolling_form w obs = 60 / 100 \<longrightarrow>
        statistic_blender (5 / 10) w obs = Blended (50 / 100))"
  using blend_bounds [of \<alpha> rolling season]
  by (simp add: statistic_blender_def blend_def)

text \<open>
  The property on a series whose mean is 0.40 and whose last two values have mean 0.60.
\<close>

theorem statistic_blender_spec_witness:
  "(0::real) \<le> 5 / 10 \<and> (5 / 10 :: real) \<le> 1 \<and> xg_series \<noteq> [] \<and> (0::nat) < 2 \<and>
   season_baseline xg_series = 40 / 100 \<and> rolling_form 2 xg_series = 60 / 100 \<and>
   statistic_blender (5 / 10) 2 xg_series = Blended (50 / 100)"
  using statistic_blender_spec [of "5 / 10" "60 / 100" "40 / 100" xg_series 2]
  by (simp add: xg_series_def season_baseline_def rolling_form_def mean_def)

text \<open>
  C6, as amended. The list answered by \<open>GET /players\<close> is stored as it is. For every
  player it lists, the modal shows the fields \<open>name\<close>, \<open>team\<close>, \<open>pos\<close> and \<open>age\<close> of
  the record; the position badge displays the field \<open>pos\<close>.
\<close>

theorem player_row_fields:
  "playersDb (step (PlayersLoaded ps) s) = ps \<and>
   row_name (player_row p) = name p \<and>
   row_team (player_row p) = team p \<and>
   row_badge (player_row p) = get_prop p ''pos'' \<and>
   row_age (player_row p) = get_prop p ''age'' \<and>
   (activeSlot s \<noteq> None \<longrightarrow> modal_rows s = Some (map player_row (filteredPlayers s)))"
  by (simp add: player_row_def modal_rows_def)

text \<open>
  The amended property at the state with the modal open.
\<close>

theorem player_row_fields_witness:
  "activeSlot pick_state \<noteq> None \<and>
   modal_rows pick_state = Some (map player_row (filteredPlayers pick_state)) \<and>
   map row_name (map player_row (filteredPlayers pick_state)) = TEAM_B_DEFAULT \<and>
   row_badge (player_row rodri) = JStr ''MF''"
proof -
  have a: "activeSlot pick_state \<noteq> None" by code_simp
  have n: "map row_name (map player_row (filteredPlayers pick_state)) = TEAM_B_DEFAULT"
    by code_simp
  have b: "get_prop rodri ''pos'' = JStr ''MF''" by code_simp
  from player_row_fields [of demo_db pick_state rodri] a n b show ?thesis by simp
qed

text \<open>
  C6, as stated, fails: for a record with the fields \<open>name\<close>, \<open>team\<close>, \<open>position\<close> and
  \<open>age\<close> the badge does not display the field \<open>position\<close>; it is empty.
\<close>

theorem badge_ignores_position_field:
  "get_prop spec_record ''name'' = JStr ''Rodri'' \<and>
   get_prop spec_record ''team'' = JStr ''Manchester City'' \<and>
   get_prop spec_record ''position'' = JStr ''Midfielder'' \<and>
   get_prop spec_record ''age'' = JNum 28 \<and>
   row_badge (player_row spec_record) = JUndefined \<and>
   row_badge (player_row spec_record) \<noteq> get_prop spec_record ''position''"
  by (simp add: spec_record_def get_prop_def player_row_def)



text \<open>
  C8. With an active slot, \<open>selectPlayer\<close> sets the entry of that slot in that team's
  lineup to the chosen player, leaves every other slot of the team and the whole lineup of
  the other team as they are, and resets the active slot to \<open>null\<close> and the search term to
  the empty string; the other state hooks keep their values. Without an active slot it
  changes nothing.
\<close>

theorem selectPlayer_frame:
  "(activeSlot s = Some (t, k) \<longrightarrow>
      obj_get (lineup_of t (lineups (selectPlayer pl s))) k = Some pl \<and>
      (\<forall>k'. k' \<noteq> k \<longrightarrow>
         obj_get (lineup_of t (lineups (selectPlayer pl s))) k' = obj_get (lineup_of t (lineups s)) k') \<and>
      lineup_of (other_team t) (lineups (selectPlayer pl s)) = lineup_of (other_team t) (lineups s) \<and>
      activeSlot (selectPlayer pl s) = None \<and>
      searchTerm (selectPlayer pl s) = [] \<and>
      playersDb (selectPlayer pl s) = playersDb s \<and>
      prediction (selectPlayer pl s) = prediction s \<and>
      loading (selectPlayer pl s) = loading s)
   \<and> (activeSlot s = None \<longrightarrow> selectPlayer pl s = s)"
  by (simp add: selectPlayer_def obj_get_def map_of_obj_set lineup_of_with_lineup
      lineup_of_with_lineup_other)

text \<open>
  The property at the state with the modal open, and at a state without an active slot.
\<close>

theorem selectPlayer_frame_witness:
  "activeSlot pick_state = Some (TeamA, ''ST'') \<and>
   obj_get (lineup_of TeamA (lineups (selectPlayer rodri pick_state))) ''ST'' = Some rodri \<and>
   lineup_of TeamB (lineups (selectPlayer rodri pick_state)) = lineup_of TeamB (lineups pick_state) \<and>
   activeSlot (selectPlayer rodri pick_state) = None \<and>
   searchTerm (selectPlayer rodri pick_state) = [] \<and>
   activeSlot full_state = None \<and>
   selectPlayer rodri full_state = full_state"
proof -
  have a: "activeSlot pick_state = Some (TeamA, ''ST'')" by code_simp
  have b: "activeSlot full_state = None" by code_simp
  from selectPlayer_frame [of pick_state TeamA "''ST''" rodri] selectPlayer_frame [of full_state TeamA "''ST''" rodri] a b
  show ?thesis by simp
qed

text \<open>
  C9. For every player database and every list of default names,
  \<open>fillTeamWithDefaults\<close> gives the slot \<open>FORMATION_ORDER[i]\<close> the first entry of the
  database whose name is \<open>defaultNames[i]\<close>; where no entry has that name the slot is left
  unfilled, so the side may end with fewer than 11 players. The lineup of the other team
  is unchanged.
\<close>

theorem fillTeamWithDefaults_spec:
  "(\<forall>i < length FORMATION_ORDER.
      obj_get (lineup_of t (lineups (fillTeamWithDefaults t names s))) (FORMATION_ORDER ! i) =
        (if i < length names then List.find (\<lambda>p. name p = names ! i) (playersDb s) else None))
   \<and> lineup_of (other_team t) (lineups (fillTeamWithDefaults t names s)) =
       lineup_of (other_team t) (lineups s)"
proof (intro conjI allI impI)
  fix i assume i: "i < length FORMATION_ORDER"
  have d: "distinct (map fst (zip FORMATION_ORDER [0 ..< length FORMATION_ORDER]))"
    by (simp add: distinct_FORMATION_ORDER)
  have "obj_get (lineup_of t (lineups (fillTeamWithDefaults t names s))) (FORMATION_ORDER ! i) =
        map_of (fold (fill_slot (playersDb s) names)
                 (zip FORMATION_ORDER [0 ..< length FORMATION_ORDER]) []) (FORMATION_ORDER ! i)"
    by (simp add: fillTeamWithDefaults_def obj_get_def lineup_of_with_lineup Let_def)
  also have "\<dots> = find_by_name (playersDb s) (array_get names i)"
    by (simp add: map_of_fold_fill [OF d] map_of_zip_order [OF i] split: option.splits)
  finally show "obj_get (lineup_of t (lineups (fillTeamWithDefaults t names s))) (FORMATION_ORDER ! i) =
        (if i < length names then List.find (\<lambda>p. name p = names ! i) (playersDb s) else None)"
    by (simp add: find_by_name_array_get)
next
  show "lineup_of (other_team t) (lineups (fillTeamWithDefaults t names s)) =
       lineup_of (other_team t) (lineups s)"
    by (simp add: fillTeamWithDefaults_def lineup_of_with_lineup_other Let_def)
qed

text \<open>
  The property for the away default eleven, and for a list of two names of which the
  second is unknown: one slot is filled.
\<close>

theorem fillTeamWithDefaults_spec_witness:
  "(9::nat) < length FORMATION_ORDER \<and> 9 < length TEAM_B_DEFAULT \<and>
   obj_get (lineup_of TeamB (lineups (fillTeamWithDefaults TeamB TEAM_B_DEFAULT pick_state)))
     (FORMATION_ORDER ! 9) = Some (demo_player ''Jeremy Doku'' ''Manchester City'') \<and>
   (2::nat) < length FORMATION_ORDER \<and>
   obj_get (lineup_of TeamB (lineups (fillTeamWithDefaults TeamB [''Ederson'', ''Nobody''] pick_state)))
     (FORMATION_ORDER ! 1) = None \<and>
   obj_get (lineup_of TeamB (lineups (fillTeamWithDefaults TeamB [''Ederson'', ''Nobody''] pick_state)))
     (FORMATION_ORDER ! 2) = None \<and>
   length (Object_values (lineup_of TeamB (lineups (fillTeamWithDefaults TeamB [''Ederson'', ''Nobody''] pick_state)))) = 1"
proof -
  have l: "(9::nat) < length FORMATION_ORDER" "(2::nat) < length FORMATION_ORDER"
    "(1::nat) < length FORMATION_ORDER" "9 < length TEAM_B_DEFAULT"
    by (simp_all add: FORMATION_ORDER_def TEAM_B_DEFAULT_def)
  have f: "List.find (\<lambda>p. name p = TEAM_B_DEFAULT ! 9) (playersDb pick_state) =
      Some (demo_player ''Jeremy Doku'' ''Manchester City'')"
    by code_simp
  have g: "List.find (\<lambda>p. name p = [''Ederson'', ''Nobody''] ! 1) (playersDb pick_state) = None"
    by code_simp
  have n: "length (Object_values (lineup_of TeamB (lineups (fillTeamWithDefaults TeamB [''Ederson'', ''Nobody''] pick_state)))) = 1"
    by code_simp
  from fillTeamWithDefaults_spec [of TeamB TEAM_B_DEFAULT pick_state, THEN conjunct1, rule_format, OF l(1)]
    fillTeamWithDefaults_spec [of TeamB "[''Ederson'', ''Nobody'']" pick_state, THEN conjunct1, rule_format, OF l(3)]
    fillTeamWithDefaults_spec [of TeamB "[''Ederson'', ''Nobody'']" pick_state, THEN conjunct1, rule_format, OF l(2)]
    l f g n
  show ?thesis by simp
qed

text \<open>
  C10. For \<open>null\<close>, \<open>undefined\<close> and the empty string \<open>getLogoUrl\<close> returns
  \<open>/logos/default.png\<close>. For every non-empty team name it returns \<open>/logos/\<close>, then the
  name in lower case with every maximal run of white space replaced by one hyphen, then
  \<open>.football-logos.cc.svg\<close>.
\<close>

theorem getLogoUrl_spec:
  "getLogoUrl JNull = Inr ''/logos/default.png''
   \<and> getLogoUrl JUndefined = Inr ''/logos/default.png''
   \<and> getLogoUrl (JStr []) = Inr ''/logos/default.png''
   \<and> (teamName \<noteq> [] \<longrightarrow>
        getLogoUrl (JStr teamName) =
          Inr (''/logos/'' @ dash_runs (toLowerCase teamName) @ ''.football-logos.cc.svg''))"
  by (simp add: getLogoUrl_def replace_ws_dash_runs)

text \<open>
  The property for a name with two spaces between its words.
\<close>

theorem getLogoUrl_spec_witness:
  "''Manchester  City'' \<noteq> [] \<and>
   getLogoUrl (JStr ''Manchester  City'') = Inr ''/logos/manchester-city.football-logos.cc.svg''"
proof -
  have "dash_runs (toLowerCase ''Manchester  City'') = ''manchester-city''" by code_simp
  with getLogoUrl_spec [of "''Manchester  City''"] show ?thesis by simp
qed

end
